theory Spec2Isabelle
  imports Main "HOL-Library.AList" "HOL-Library.Sublist"
begin

section \<open>Strings\<close>

text \<open>
  Python strings are modelled as \<open>string\<close> (a list of bytes). The case conversions are
  the ASCII part of \<open>str.lower\<close>, \<open>str.upper\<close> and \<open>str.capitalize\<close>: a byte outside
  \<open>A..Z\<close> / \<open>a..z\<close> is left as it is.
\<close>

definition ascii_upper :: string where
  "ascii_upper = ''ABCDEFGHIJKLMNOPQRSTUVWXYZ''"

definition ascii_lower :: string where
  "ascii_lower = ''abcdefghijklmnopqrstuvwxyz''"

definition lower_char :: "char \<Rightarrow> char" where
  "lower_char c = (case map_of (zip ascii_upper ascii_lower) c of Some l \<Rightarrow> l | None \<Rightarrow> c)"


definition lower :: "string \<Rightarrow> string" where
  "lower s = map lower_char s"




definition startswith :: "string \<Rightarrow> string \<Rightarrow> bool" where
  "startswith s pre = (take (length pre) s = pre)"


text \<open>\<open>str(n)\<close> for a natural number, as the f-strings use it.\<close>

definition digit_char :: "nat \<Rightarrow> char" where
  "digit_char n = ''0123456789'' ! (n mod 10)"

fun str_nat :: "nat \<Rightarrow> string" where
  "str_nat n = (if n < 10 then [digit_char n] else str_nat (n div 10) @ [digit_char (n mod 10)])"

declare str_nat.simps [simp del]

definition zfill :: "nat \<Rightarrow> string \<Rightarrow> string" where
  "zfill w s = replicate (w - length s) (CHR ''0'') @ s"

text \<open>\<open>name.rfind('.')\<close>: the index of the last occurrence, \<open>None\<close> for Python's \<open>-1\<close>.\<close>

fun rfind :: "char \<Rightarrow> string \<Rightarrow> nat option" where
  "rfind c [] = None"
| "rfind c (x # xs) =
     (case rfind c xs of
        Some i \<Rightarrow> Some (Suc i)
      | None \<Rightarrow> if x = c then Some 0 else None)"

text \<open>\<open>s.split(sep)\<close> for a one-character separator.\<close>

fun split_on :: "char \<Rightarrow> string \<Rightarrow> string list" where
  "split_on sep [] = [[]]"
| "split_on sep (x # xs) =
     (if x = sep then [] # split_on sep xs
      else (x # hd (split_on sep xs)) # tl (split_on sep xs))"

section \<open>Paths\<close>

text \<open>
  A \<open>pathlib.Path\<close> is modelled by the list of its components below the root: paths are
  absolute and normalised the way \<open>pathlib\<close> normalises them (no empty and no \<open>.\<close>
  component); the current directory, drives and symbolic links are not modelled.
  \<open>Path_of\<close> is the constructor \<open>Path(s)\<close>, \<open>pjoin\<close> the operator \<open>p / s\<close> for a string
  \<open>s\<close> (which may hold several segments, as the date folder \<open>2023/05\<close> does, or be
  absolute and then replace \<open>p\<close>), and \<open>pchild\<close> the same operator for a single
  component taken from a directory listing or from another path's \<open>name\<close>.
\<close>

type_synonym path = "string list"

definition segments :: "string \<Rightarrow> string list" where
  "segments s = filter (\<lambda>w. w \<noteq> [] \<and> w \<noteq> ''.'') (split_on (CHR ''/'') s)"

definition Path_of :: "string \<Rightarrow> path" where
  "Path_of s = segments s"

definition pjoin :: "path \<Rightarrow> string \<Rightarrow> path" where
  "pjoin p s = (if startswith s ''/'' then segments s else p @ segments s)"

definition pchild :: "path \<Rightarrow> string \<Rightarrow> path" where
  "pchild p n = p @ [n]"

definition name :: "path \<Rightarrow> string" where
  "name p = (if p = [] then [] else last p)"

definition parent :: "path \<Rightarrow> path" where
  "parent p = butlast p"

text \<open>
  \<open>suffix\<close> and \<open>stem\<close> of a final component, as \<open>pathlib\<close> computes them from
  \<open>name.rfind('.')\<close>: a leading dot and a trailing dot start no suffix.
\<close>

definition suffix_of_name :: "string \<Rightarrow> string" where
  "suffix_of_name n =
     (case rfind (CHR ''.'') n of
        Some i \<Rightarrow> if 0 < i \<and> i < length n - 1 then drop i n else []
      | None \<Rightarrow> [])"

definition stem_of_name :: "string \<Rightarrow> string" where
  "stem_of_name n =
     (case rfind (CHR ''.'') n of
        Some i \<Rightarrow> if 0 < i \<and> i < length n - 1 then take i n else n
      | None \<Rightarrow> n)"

definition suffix_of :: "path \<Rightarrow> string" where
  "suffix_of p = suffix_of_name (name p)"

definition stem_of :: "path \<Rightarrow> string" where
  "stem_of p = stem_of_name (name p)"

definition path_str :: "path \<Rightarrow> string" where
  "path_str p = (if p = [] then ''/'' else concat (map (\<lambda>c. CHR ''/'' # c) p))"

section \<open>Dates\<close>

text \<open>
  A \<open>datetime\<close> with its numeric fields. \<open>strftime\<close> is the library's; the model covers
  the numeric directives (\<open>%Y %m %d %H %M %S\<close>) and \<open>%%\<close>, and copies any other text.
\<close>

record datetime =
  year :: nat
  month :: nat
  day :: nat
  hour :: nat
  minute :: nat
  second :: nat

definition directive :: "datetime \<Rightarrow> char \<Rightarrow> string" where
  "directive d c =
     (if c = CHR ''Y'' then zfill 4 (str_nat (year d))
      else if c = CHR ''m'' then zfill 2 (str_nat (month d))
      else if c = CHR ''d'' then zfill 2 (str_nat (day d))
      else if c = CHR ''H'' then zfill 2 (str_nat (hour d))
      else if c = CHR ''M'' then zfill 2 (str_nat (minute d))
      else if c = CHR ''S'' then zfill 2 (str_nat (second d))
      else if c = CHR ''%'' then ''%''
      else [CHR ''%'', c])"

fun strftime :: "datetime \<Rightarrow> string \<Rightarrow> string" where
  "strftime d [] = []"
| "strftime d [c] = [c]"
| "strftime d (c # e # cs) =
     (if c = CHR ''%'' then directive d e @ strftime d cs
      else c # strftime d (e # cs))"

definition isoformat :: "datetime \<Rightarrow> string" where
  "isoformat d = strftime d ''%Y-%m-%dT%H:%M:%S''"

section \<open>Rules and configuration\<close>

text \<open>
  One rule as \<open>load_default_config\<close> writes it: \<open>extensions\<close> is always there, the other
  keys are read with \<open>in\<close> or \<open>.get\<close> and so may be absent. The rule set is a Python
  \<open>dict\<close>: an association list in insertion order.
\<close>

record rule =
  extensions :: "string list"
  subfolder_by_date :: "bool option"
  date_format :: "string option"
  subfolders :: "(string \<times> string list) list option"

type_synonym rules = "(string \<times> rule) list"

definition mk_rule ::
  "string list \<Rightarrow> bool option \<Rightarrow> string option \<Rightarrow> (string \<times> string list) list option \<Rightarrow> rule" where
  "mk_rule exts by_date fmt subs =
     \<lparr>extensions = exts, subfolder_by_date = by_date, date_format = fmt, subfolders = subs\<rparr>"

text \<open>The rule set of \<open>load_default_config\<close>, under the names \<open>get_rules\<close> gives them.\<close>

definition default_rules :: rules where
  "default_rules =
     [(''Images'',
        mk_rule [''.jpg'', ''.jpeg'', ''.png'', ''.gif'', ''.bmp'', ''.tiff'', ''.svg'', ''.webp'',
                 ''.ico'', ''.heic'']
          (Some True) (Some ''%Y/%m'') None),
      (''Documents'',
        mk_rule [''.pdf'', ''.doc'', ''.docx'', ''.txt'', ''.rtf'', ''.odt'', ''.pages'']
          (Some False) None
          (Some [(''PDFs'', [''.pdf'']),
                 (''Word Documents'', [''.doc'', ''.docx'', ''.odt'']),
                 (''Text Files'', [''.txt'', ''.rtf'']),
                 (''Other Documents'', [])])),
      (''Office'',
        mk_rule [''.xls'', ''.xlsx'', ''.ppt'', ''.pptx'', ''.odp'', ''.ods'', ''.csv'', ''.numbers'',
                 ''.keynote'']
          (Some False) None
          (Some [(''Spreadsheets'', [''.xls'', ''.xlsx'', ''.ods'', ''.csv'', ''.numbers'']),
                 (''Presentations'', [''.ppt'', ''.pptx'', ''.odp'', ''.keynote''])])),
      (''Audio'',
        mk_rule [''.mp3'', ''.wav'', ''.flac'', ''.aac'', ''.ogg'', ''.wma'', ''.m4a'']
          (Some False) None None),
      (''Video'',
        mk_rule [''.mp4'', ''.avi'', ''.mkv'', ''.mov'', ''.wmv'', ''.flv'', ''.webm'', ''.m4v'']
          (Some True) (Some ''%Y'') None),
      (''Archives'',
        mk_rule [''.zip'', ''.rar'', ''.7z'', ''.tar'', ''.gz'', ''.bz2'', ''.xz'']
          (Some False) None None),
      (''Development'',
        mk_rule [''.py'', ''.js'', ''.html'', ''.css'', ''.java'', ''.cpp'', ''.c'', ''.php'', ''.rb'',
                 ''.go'', ''.rs'', ''.swift'']
          (Some False) None
          (Some [(''Python'', [''.py'']),
                 (''Web'', [''.html'', ''.css'', ''.js'']),
                 (''Other Code'', [])])),
      (''Software'',
        mk_rule [''.exe'', ''.msi'', ''.dmg'', ''.pkg'', ''.deb'', ''.rpm'', ''.appimage'']
          (Some False) None None)]"

text \<open>\<open>d[k] = v\<close> on a \<open>dict\<close>: an existing key keeps its place, a new one goes last.\<close>

fun dict_set :: "'k \<Rightarrow> 'v \<Rightarrow> ('k \<times> 'v) list \<Rightarrow> ('k \<times> 'v) list" where
  "dict_set k v [] = [(k, v)]"
| "dict_set k v ((k', v') # d) = (if k = k' then (k, v) # d else (k', v') # dict_set k v d)"

datatype error =
    JSONDecodeError
  | FileNotFoundError
  | FileExistsError
  | NotADirectoryError
  | IsADirectoryError
  | OSError
  | ShutilError
  | TypeError



section \<open>Classification\<close>

fun category_of :: "rules \<Rightarrow> string \<Rightarrow> string" where
  "category_of [] extension = ''Other''"
| "category_of ((category, rule) # rest) extension =
     (if extension \<in> set (extensions rule) then category else category_of rest extension)"

definition get_file_category :: "rules \<Rightarrow> path \<Rightarrow> string" where
  "get_file_category rules file_path = category_of rules (lower (suffix_of file_path))"

text \<open>\<open>get_subfolder\<close>: the two loops of the source, each with its early return.\<close>

fun first_containing :: "(string \<times> string list) list \<Rightarrow> string \<Rightarrow> string option" where
  "first_containing [] extension = None"
| "first_containing ((subfolder, exts) # rest) extension =
     (if extension \<in> set exts then Some subfolder else first_containing rest extension)"

fun first_catch_all :: "(string \<times> string list) list \<Rightarrow> string option" where
  "first_catch_all [] = None"
| "first_catch_all ((subfolder, exts) # rest) =
     (if exts = [] then Some subfolder else first_catch_all rest)"

definition get_subfolder :: "path \<Rightarrow> (string \<times> string list) list \<Rightarrow> string option" where
  "get_subfolder file_path subs =
     (case first_containing subs (lower (suffix_of file_path)) of
        Some subfolder \<Rightarrow> Some subfolder
      | None \<Rightarrow> first_catch_all subs)"

section \<open>The file system\<close>

text \<open>
  The file system is a tree: a regular file with its content (a number standing for the
  bytes) and the timestamp \<open>get_file_date\<close> reads, or a directory with its entries in
  listing order (the order \<open>os.scandir\<close> returns them in; a new entry goes last).
  Permissions, links and devices are not modelled, so the only failures are those of
  a missing or ill-kinded path.
\<close>

datatype node = File nat datetime | Dir "(string \<times> node) list"

type_synonym fs = node

fun lookup :: "node \<Rightarrow> path \<Rightarrow> node option" where
  "lookup n [] = Some n"
| "lookup (File c d) (x # p) = None"
| "lookup (Dir es) (x # p) = (case map_of es x of None \<Rightarrow> None | Some n \<Rightarrow> lookup n p)"

fun is_dir_node :: "node \<Rightarrow> bool" where
  "is_dir_node (Dir es) = True"
| "is_dir_node (File c d) = False"

definition exists :: "fs \<Rightarrow> path \<Rightarrow> bool" where
  "exists fs p = (lookup fs p \<noteq> None)"

definition is_dir :: "fs \<Rightarrow> path \<Rightarrow> bool" where
  "is_dir fs p = (case lookup fs p of Some n \<Rightarrow> is_dir_node n | None \<Rightarrow> False)"

text \<open>
  \<open>map_at p g fs\<close> rewrites the node at \<open>p\<close> with \<open>g\<close> (nothing happens when \<open>p\<close> does
  not exist); \<open>upd_dir p f fs\<close> rewrites the entry list of the directory at \<open>p\<close>.
\<close>

fun map_at :: "path \<Rightarrow> (node \<Rightarrow> node) \<Rightarrow> node \<Rightarrow> node" where
  "map_at [] g n = g n"
| "map_at (x # p) g (File c d) = File c d"
| "map_at (x # p) g (Dir es) =
     Dir (map (\<lambda>e. if fst e = x then (fst e, map_at p g (snd e)) else e) es)"

fun on_entries :: "((string \<times> node) list \<Rightarrow> (string \<times> node) list) \<Rightarrow> node \<Rightarrow> node" where
  "on_entries f (File c d) = File c d"
| "on_entries f (Dir es) = Dir (f es)"

definition upd_dir :: "path \<Rightarrow> ((string \<times> node) list \<Rightarrow> (string \<times> node) list) \<Rightarrow> node \<Rightarrow> node" where
  "upd_dir p f fs = map_at p (on_entries f) fs"

definition put_at :: "fs \<Rightarrow> path \<Rightarrow> node \<Rightarrow> fs" where
  "put_at fs p n = upd_dir (parent p) (dict_set (name p) n) fs"

definition remove_at :: "fs \<Rightarrow> path \<Rightarrow> fs" where
  "remove_at fs p = upd_dir (parent p) (filter (\<lambda>e. fst e \<noteq> name p)) fs"

text \<open>\<open>os.mkdir\<close>: the path must be free and its parent a directory.\<close>

definition os_mkdir :: "fs \<Rightarrow> path \<Rightarrow> error + fs" where
  "os_mkdir fs p =
     (if exists fs p then Inl FileExistsError
      else
        (case lookup fs (parent p) of
           None \<Rightarrow> Inl FileNotFoundError
         | Some (File c d) \<Rightarrow> Inl NotADirectoryError
         | Some (Dir es) \<Rightarrow> Inr (put_at fs p (Dir []))))"

text \<open>
  \<open>Path.mkdir(parents=True, exist_ok=True)\<close>, with the two \<open>except\<close> clauses of
  \<open>pathlib\<close>: a missing parent is created first and the directory made again without
  \<open>parents\<close>; any other \<open>OSError\<close> is dropped when the path is a directory already.
\<close>

definition mkdir_exist_ok :: "fs \<Rightarrow> path \<Rightarrow> error + fs" where
  "mkdir_exist_ok fs p =
     (case os_mkdir fs p of
        Inr fs' \<Rightarrow> Inr fs'
      | Inl e \<Rightarrow>
          (if e = FileNotFoundError then Inl e
           else if is_dir fs p then Inr fs else Inl e))"

lemma parent_shorter: "parent p \<noteq> p \<Longrightarrow> length (parent p) < length p"
  by (cases p) (auto simp: parent_def)

function mkdir_parents :: "fs \<Rightarrow> path \<Rightarrow> error + fs" where
  "mkdir_parents fs p =
     (case os_mkdir fs p of
        Inr fs' \<Rightarrow> Inr fs'
      | Inl e \<Rightarrow>
          (if e = FileNotFoundError then
             (if parent p = p then Inl e
              else
                (case mkdir_parents fs (parent p) of
                   Inl e' \<Rightarrow> Inl e'
                 | Inr fs' \<Rightarrow> mkdir_exist_ok fs' p))
           else if is_dir fs p then Inr fs else Inl e))"
  by pat_completeness auto

termination
  by (relation "measure (\<lambda>(fs, p). length p)") (auto simp: parent_shorter)

declare mkdir_parents.simps [simp del]

text \<open>
  \<open>os.rename\<close> (POSIX): a file replaces an existing file; a directory moves with its
  subtree to a free path (or onto an empty directory) outside itself.
\<close>

definition os_rename :: "fs \<Rightarrow> path \<Rightarrow> path \<Rightarrow> error + fs" where
  "os_rename fs src dst =
     (case lookup fs src of
        None \<Rightarrow> Inl FileNotFoundError
      | Some n \<Rightarrow>
          (if src = [] \<or> dst = [] then Inl OSError
           else if src = dst then Inr fs
           else if \<not> exists fs (parent dst) then Inl FileNotFoundError
           else if \<not> is_dir fs (parent dst) then Inl NotADirectoryError
           else
             (case (n, lookup fs dst) of
                (File c d, Some (Dir es)) \<Rightarrow> Inl IsADirectoryError
              | (File c d, _) \<Rightarrow> Inr (put_at (remove_at fs src) dst n)
              | (Dir es, Some (File c d)) \<Rightarrow> Inl NotADirectoryError
              | (Dir es, Some (Dir es')) \<Rightarrow>
                  (if prefix src dst then Inl OSError
                   else if es' = [] then Inr (put_at (remove_at fs src) dst n)
                   else Inl OSError)
              | (Dir es, None) \<Rightarrow>
                  (if prefix src dst then Inl OSError
                   else Inr (put_at (remove_at fs src) dst n)))))"

text \<open>
  \<open>shutil.move(src, dst)\<close>: into \<open>dst\<close> when \<open>dst\<close> is a directory (refused when the
  name is taken there), else by \<open>os.rename\<close>. The copy-and-delete fall-back of
  \<open>shutil\<close> fails where the rename failed in this model, so the error is returned.
\<close>

definition shutil_move :: "fs \<Rightarrow> path \<Rightarrow> path \<Rightarrow> error + fs" where
  "shutil_move fs src dst =
     (if is_dir fs dst then
        (if src = dst then os_rename fs src dst
         else
           (let real_dst = pchild dst (name src)
            in if exists fs real_dst then Inl ShutilError else os_rename fs src real_dst))
      else os_rename fs src dst)"

text \<open>
  \<open>os.walk(top)\<close>, top down: one triple \<open>(root, dirs, files)\<close> per directory, the
  directory itself before its sub-directories. A \<open>top\<close> that is no directory yields
  nothing.
\<close>

definition dirs_of :: "(string \<times> node) list \<Rightarrow> string list" where
  "dirs_of es = map fst (filter (\<lambda>e. is_dir_node (snd e)) es)"

definition files_of :: "(string \<times> node) list \<Rightarrow> string list" where
  "files_of es = map fst (filter (\<lambda>e. \<not> is_dir_node (snd e)) es)"

fun walk_node :: "node \<Rightarrow> path \<Rightarrow> (path \<times> string list \<times> string list) list" where
  "walk_node (File c d) root = []"
| "walk_node (Dir es) root =
     (root, dirs_of es, files_of es)
       # concat (map (\<lambda>e. walk_node (snd e) (pchild root (fst e)))
                   (filter (\<lambda>e. is_dir_node (snd e)) es))"

definition os_walk :: "fs \<Rightarrow> path \<Rightarrow> (path \<times> string list \<times> string list) list" where
  "os_walk fs top_dir = (case lookup fs top_dir of None \<Rightarrow> [] | Some n \<Rightarrow> walk_node n top_dir)"

text \<open>
  The empty-directory pass of \<open>cleanup_dir_tree\<close> and \<open>_cleanup_empty_dirs\<close>:
  \<open>os.walk(base, topdown=False)\<close> yields a directory after everything below it, so when
  the loop tests the sub-directories of \<open>root\<close> each of them has been pruned already;
  it then removes those that are empty. Regular files are never touched and the base
  itself is never removed. \<open>rmdir\<close> cannot fail on an empty directory in this model, so
  the \<open>except: pass\<close> has nothing to swallow.
\<close>

fun cleanup_node :: "node \<Rightarrow> node" where
  "cleanup_node (File c d) = File c d"
| "cleanup_node (Dir es) =
     Dir (filter (\<lambda>e. snd e \<noteq> Dir []) (map (\<lambda>e. (fst e, cleanup_node (snd e))) es))"

definition cleanup_dir_tree :: "fs \<Rightarrow> path \<Rightarrow> fs" where
  "cleanup_dir_tree fs base_dir = map_at base_dir cleanup_node fs"

section \<open>Renaming a duplicate\<close>

text \<open>
  The \<open>while destination.exists()\<close> loop of \<open>handle_duplicate\<close>. It ends because a
  directory has finitely many entries and the candidate names are pairwise different;
  the lemmas up to the termination proof establish that.
\<close>

definition new_name :: "string \<Rightarrow> string \<Rightarrow> nat \<Rightarrow> string" where
  "new_name base_name extension counter = base_name @ ''_'' @ str_nat counter @ extension"

lemma digit_char_inj: "a < 10 \<Longrightarrow> b < 10 \<Longrightarrow> digit_char a = digit_char b \<Longrightarrow> a = b"
proof -
  assume a: "a < 10" and b: "b < 10" and e: "digit_char a = digit_char b"
  have A: "a \<in> {0,1,2,3,4,5,6,7,8,9}" using a by auto
  have B: "b \<in> {0,1,2,3,4,5,6,7,8,9}" using b by auto
  from A B e show ?thesis
    by (auto simp: digit_char_def)
qed

lemma str_nat_nonempty: "str_nat n \<noteq> []"
  by (subst str_nat.simps) simp

lemma str_nat_inj: "str_nat n = str_nat m \<Longrightarrow> n = m"
proof (induction n arbitrary: m rule: str_nat.induct)
  case (1 n)
  show ?case
  proof (cases "n < 10")
    case True
    show ?thesis
    proof (cases "m < 10")
      case mt: True
      from "1.prems" True mt have "digit_char n = digit_char m"
        by (simp add: str_nat.simps[of n] str_nat.simps[of m])
      with True mt show ?thesis by (rule digit_char_inj)
    next
      case False
      from "1.prems" True False have "[digit_char n] = str_nat (m div 10) @ [digit_char (m mod 10)]"
        by (simp add: str_nat.simps[of n] str_nat.simps[of m])
      then show ?thesis using str_nat_nonempty[of "m div 10"] by simp
    qed
  next
    case False
    show ?thesis
    proof (cases "m < 10")
      case True
      from "1.prems" True False have "str_nat (n div 10) @ [digit_char (n mod 10)] = [digit_char m]"
        by (simp add: str_nat.simps[of n] str_nat.simps[of m])
      then show ?thesis using str_nat_nonempty[of "n div 10"] by simp
    next
      case mf: False
      from "1.prems" False mf have e: "str_nat (n div 10) = str_nat (m div 10)"
        and d: "digit_char (n mod 10) = digit_char (m mod 10)"
        by (simp_all add: str_nat.simps[of n] str_nat.simps[of m])
      from "1.IH"[OF False e] have "n div 10 = m div 10" .
      moreover from d have "n mod 10 = m mod 10" by (intro digit_char_inj) auto
      ultimately show ?thesis by (metis div_mult_mod_eq)
    qed
  qed
qed

lemma inj_new_name: "inj (new_name b e)"
  by (auto simp: inj_def new_name_def dest: str_nat_inj)

lemma lookup_snoc:
  "lookup fs (p @ [n]) = (case lookup fs p of Some (Dir es) \<Rightarrow> map_of es n | _ \<Rightarrow> None)"
proof (induction p arbitrary: fs)
  case Nil
  show ?case by (cases fs) (auto split: option.splits)
next
  case (Cons x p)
  show ?case by (cases fs) (auto simp: Cons.IH split: option.splits)
qed

lemma finite_names_exists:
  assumes "inj f"
  shows "finite {k. exists fs (pchild par (f k))}"
proof (cases "lookup fs par")
  case None
  then show ?thesis by (simp add: exists_def pchild_def lookup_snoc)
next
  case (Some n)
  show ?thesis
  proof (cases n)
    case (File c d)
    with Some show ?thesis by (simp add: exists_def pchild_def lookup_snoc)
  next
    case (Dir es)
    have "{k. exists fs (pchild par (f k))} \<subseteq> f -` (fst ` set es)"
      using Some Dir by (force simp: exists_def pchild_def lookup_snoc dest!: map_of_SomeD)
    moreover have "finite (f -` (fst ` set es))"
      using assms by (intro finite_vimageI) auto
    ultimately show ?thesis by (rule finite_subset)
  qed
qed

definition taken :: "fs \<Rightarrow> path \<Rightarrow> string \<Rightarrow> string \<Rightarrow> nat \<Rightarrow> nat set" where
  "taken fs par b e c = {k. c \<le> k \<and> exists fs (pchild par (new_name b e k))}"

lemma finite_taken: "finite (taken fs par b e c)"
proof -
  have "taken fs par b e c \<subseteq> {k. exists fs (pchild par (new_name b e k))}"
    by (auto simp: taken_def)
  then show ?thesis
    using finite_names_exists[OF inj_new_name] by (rule finite_subset)
qed

lemma taken_Suc: "taken fs par b e (Suc c) = taken fs par b e c - {c}"
  by (auto simp: taken_def)

lemma card_taken_Suc:
  "exists fs (pchild par (new_name b e c)) \<Longrightarrow>
     card (taken fs par b e (Suc c)) < card (taken fs par b e c)"
proof -
  assume "exists fs (pchild par (new_name b e c))"
  then have "c \<in> taken fs par b e c" by (simp add: taken_def)
  with finite_taken have "card (taken fs par b e c - {c}) < card (taken fs par b e c)"
    by (rule card_Diff1_less)
  then show ?thesis by (simp only: taken_Suc)
qed

lemma card_taken_Suc_le:
  "card (taken fs par b e (Suc c)) \<le> card (taken fs par b e c)"
  by (simp only: taken_Suc card_Diff1_le)

function rename_loop :: "fs \<Rightarrow> string \<Rightarrow> string \<Rightarrow> path \<Rightarrow> path \<Rightarrow> nat \<Rightarrow> path" where
  "rename_loop fs base_name extension par destination counter =
     (if exists fs destination
      then rename_loop fs base_name extension par
             (pchild par (new_name base_name extension counter)) (counter + 1)
      else destination)"
  by pat_completeness auto

termination
proof (relation "measure (\<lambda>(fs, b, e, par, dest, c).
          2 * card (taken fs par b e c) + (if exists fs dest then 1 else 0))", goal_cases)
  case 1
  show ?case by simp
next
  case (2 fs b e par dest c)
  show ?case
  proof (cases "exists fs (pchild par (new_name b e c))")
    case True
    from card_taken_Suc[OF True] 2 show ?thesis by simp
  next
    case False
    with card_taken_Suc_le[of fs par b e c] 2 show ?thesis by simp
  qed
qed

declare rename_loop.simps [simp del]

section \<open>The organizer\<close>

text \<open>
  One entry of the undo log, the dictionary \<open>organize_file\<close> appends. \<open>source\<close> and
  \<open>destination\<close> are optional because \<open>undo_organization\<close> tests for them in what it
  loads; they hold the path that \<open>str\<close> writes and \<open>Path\<close> reads back.
\<close>

record operation =
  timestamp :: string
  source :: "path option"
  destination :: "path option"
  action :: string

text \<open>
  The state of a \<open>FileOrganizer\<close>: its rules, the \<open>DEFAULT\<close> section of its
  configuration, the two counters of \<open>stats\<close>, the undo log and the \<open>running\<close> flag
  (set by the caller; no second thread changes it during a pass in this model).
\<close>

record organizer =
  rules :: rules
  settings :: "(string \<times> string) list"
  moved :: nat
  errors :: nat
  undo_log :: "operation list"
  running :: bool

definition get_setting :: "organizer \<Rightarrow> string \<Rightarrow> string \<Rightarrow> string" where
  "get_setting org key fallback =
     (case map_of (settings org) key of Some v \<Rightarrow> v | None \<Rightarrow> fallback)"

text \<open>\<open>str(e)\<close> of an exception: a fixed text for each kind of failure.\<close>

fun str_error :: "error \<Rightarrow> string" where
  "str_error JSONDecodeError = ''Expecting value''"
| "str_error FileNotFoundError = ''[Errno 2] No such file or directory''"
| "str_error FileExistsError = ''[Errno 17] File exists''"
| "str_error NotADirectoryError = ''[Errno 20] Not a directory''"
| "str_error IsADirectoryError = ''[Errno 21] Is a directory''"
| "str_error OSError = ''[Errno 22] Invalid argument''"
| "str_error ShutilError = ''Destination path already exists''"
| "str_error TypeError = ''expected str, bytes or os.PathLike object''"

text \<open>
  \<open>get_file_date\<close>: the timestamp of the file, and \<open>datetime.now()\<close> (the parameter
  \<open>now\<close>) when \<open>os.stat\<close> fails. Directories carry no timestamp in the model;
  \<open>organize_file\<close> asks for the date of regular files only.
\<close>

definition get_file_date :: "datetime \<Rightarrow> fs \<Rightarrow> path \<Rightarrow> datetime" where
  "get_file_date now fs file_path =
     (case lookup fs file_path of Some (File c d) \<Rightarrow> d | _ \<Rightarrow> now)"

definition generate_destination_path :: "datetime \<Rightarrow> rules \<Rightarrow> fs \<Rightarrow> path \<Rightarrow> path \<Rightarrow> path" where
  "generate_destination_path now rs fs file_path destination_base =
     (let category = get_file_category rs file_path;
          rule = map_of rs category;
          dest_path = pjoin destination_base category;
          dest_path =
            (case rule of
               None \<Rightarrow> dest_path
             | Some r \<Rightarrow>
                 (case subfolders r of
                    None \<Rightarrow> dest_path
                  | Some subs \<Rightarrow>
                      (case get_subfolder file_path subs of
                         None \<Rightarrow> dest_path
                       | Some subfolder \<Rightarrow>
                           if subfolder \<noteq> [] then pjoin dest_path subfolder else dest_path)))
      in (case rule of
            None \<Rightarrow> dest_path
          | Some r \<Rightarrow>
              if subfolder_by_date r = Some True then
                (let file_date = get_file_date now fs file_path;
                     date_format = (case date_format r of Some f \<Rightarrow> f | None \<Rightarrow> ''%Y/%m'');
                     date_folder = strftime file_date date_format
                 in pjoin dest_path date_folder)
              else dest_path))"

definition handle_duplicate :: "organizer \<Rightarrow> fs \<Rightarrow> path \<Rightarrow> path \<Rightarrow> path option" where
  "handle_duplicate org fs src dest =
     (let handle_method = get_setting org ''handle_duplicates'' ''rename''
      in if handle_method = ''skip'' then None
         else if handle_method = ''overwrite'' then Some dest
         else Some (rename_loop fs (stem_of dest) (suffix_of dest) (parent dest) dest 1))"

type_synonym outcome = "bool \<times> string"

definition error_moving :: "path \<Rightarrow> error \<Rightarrow> outcome" where
  "error_moving source_path e =
     (False, ''Error moving '' @ name source_path @ '': '' @ str_error e)"

definition organize_file ::
  "datetime \<Rightarrow> organizer \<Rightarrow> fs \<Rightarrow> path \<Rightarrow> path \<Rightarrow> bool \<Rightarrow> outcome \<times> organizer \<times> fs" where
  "organize_file now org fs source_path destination_base dry_run =
     (if \<not> exists fs source_path \<or> is_dir fs source_path then
        ((False, ''File does not exist or is a directory: '' @ path_str source_path), org, fs)
      else
        (let dest_dir = generate_destination_path now (rules org) fs source_path destination_base;
             dest_file = pchild dest_dir (name source_path)
         in (case (if exists fs dest_file then handle_duplicate org fs source_path dest_file
                   else Some dest_file) of
               None \<Rightarrow> ((False, ''File skipped (duplicate): '' @ name source_path), org, fs)
             | Some dest_file \<Rightarrow>
                 if dry_run then
                   ((True, ''Would move '' @ path_str source_path @ '' -> '' @ path_str dest_file),
                    org, fs)
                 else
                   (case mkdir_parents fs dest_dir of
                      Inl e \<Rightarrow> (error_moving source_path e, org\<lparr>errors := errors org + 1\<rparr>, fs)
                    | Inr fs1 \<Rightarrow>
                        (case shutil_move fs1 source_path dest_file of
                           Inl e \<Rightarrow>
                             (error_moving source_path e, org\<lparr>errors := errors org + 1\<rparr>, fs1)
                         | Inr fs2 \<Rightarrow>
                             ((True, ''Moved '' @ name source_path @ '' -> '' @ path_str dest_file),
                              org\<lparr>undo_log :=
                                     (if get_setting org ''create_undo_log'' ''True'' = ''True''
                                      then undo_log org @
                                             [\<lparr>timestamp = isoformat now,
                                               source = Some source_path,
                                               destination = Some dest_file,
                                               action = ''move''\<rparr>]
                                      else undo_log org),
                                   moved := moved org + 1\<rparr>,
                              fs2))))))"

text \<open>
  \<open>organize_folder\<close>: the files \<open>os.walk\<close> lists, without those whose name starts with
  \<open>.\<close> or \<open>~\<close>, each handed to \<open>organize_file\<close> while \<open>running\<close> is set. The progress
  callback is left out.
\<close>

definition all_files_of :: "fs \<Rightarrow> path \<Rightarrow> path list" where
  "all_files_of fs source_folder =
     concat (map (\<lambda>(root, dirs, files).
                    map (pchild root)
                        (filter (\<lambda>file. \<not> (startswith file ''.'' \<or> startswith file ''~'')) files))
                 (os_walk fs source_folder))"

fun organize_loop ::
  "datetime \<Rightarrow> path \<Rightarrow> bool \<Rightarrow> path list \<Rightarrow> outcome list \<Rightarrow> organizer \<Rightarrow> fs
     \<Rightarrow> outcome list \<times> organizer \<times> fs" where
  "organize_loop now destination_folder dry_run [] results org fs = (results, org, fs)"
| "organize_loop now destination_folder dry_run (file_path # rest) results org fs =
     (if \<not> running org then (results, org, fs)
      else
        (case organize_file now org fs file_path destination_folder dry_run of
           (r, org', fs') \<Rightarrow>
             organize_loop now destination_folder dry_run rest (results @ [r]) org' fs'))"

definition organize_folder ::
  "datetime \<Rightarrow> organizer \<Rightarrow> fs \<Rightarrow> path \<Rightarrow> path \<Rightarrow> bool
     \<Rightarrow> (bool \<times> (string + outcome list)) \<times> organizer \<times> fs" where
  "organize_folder now org fs source_folder destination_folder dry_run =
     (if \<not> exists fs source_folder then
        ((False, Inl (''Source folder does not exist: '' @ path_str source_folder)), org, fs)
      else
        (case organize_loop now destination_folder dry_run (all_files_of fs source_folder) [] org fs of
           (results, org', fs') \<Rightarrow> ((True, Inr results), org', fs')))"

section \<open>Undo\<close>

definition cleanup_empty_dirs :: "organizer \<Rightarrow> fs \<Rightarrow> fs" where
  "cleanup_empty_dirs org fs =
     (case map_of (settings org) ''destination_folder'' of
        None \<Rightarrow> fs
      | Some s \<Rightarrow>
          (let destination_base = Path_of s
           in if \<not> exists fs destination_base then fs
              else cleanup_dir_tree fs destination_base))"

text \<open>
  One pass of the body of the undo loop: the two guarded \<open>continue\<close> branches, the
  restoring move, and the \<open>except\<close> branch for whatever \<open>mkdir\<close> or \<open>shutil.move\<close>
  raise. A directory made before a failing move stays.
\<close>

definition undo_operation :: "fs \<Rightarrow> operation \<Rightarrow> outcome \<times> fs" where
  "undo_operation fs op =
     (case (source op, destination op) of
        (Some src, Some dst) \<Rightarrow>
          (if \<not> exists fs dst then
             ((False, ''File not found in organized location: '' @ name dst), fs)
           else
             (case mkdir_parents fs (parent src) of
                Inl e \<Rightarrow>
                  ((False, ''Failed to restore '' @ path_str dst @ '': '' @ str_error e), fs)
              | Inr fs1 \<Rightarrow>
                  (case shutil_move fs1 dst src of
                     Inl e \<Rightarrow>
                       ((False, ''Failed to restore '' @ path_str dst @ '': '' @ str_error e), fs1)
                   | Inr fs2 \<Rightarrow>
                       ((True, ''Restored '' @ name dst @ '' -> '' @ path_str src), fs2))))
      | _ \<Rightarrow> ((False, ''Invalid operation entry: missing source or destination''), fs))"

fun undo_loop ::
  "bool \<Rightarrow> operation list \<Rightarrow> outcome list \<Rightarrow> nat \<Rightarrow> nat \<Rightarrow> fs
     \<Rightarrow> outcome list \<times> nat \<times> nat \<times> fs" where
  "undo_loop run [] results successful_undos failed_undos fs =
     (results, successful_undos, failed_undos, fs)"
| "undo_loop run (op # rest) results successful_undos failed_undos fs =
     (if \<not> run then (results, successful_undos, failed_undos, fs)
      else
        (case undo_operation fs op of
           (r, fs') \<Rightarrow>
             if fst r then undo_loop run rest (results @ [r]) (successful_undos + 1) failed_undos fs'
             else undo_loop run rest (results @ [r]) successful_undos (failed_undos + 1) fs'))"

definition undo_summary :: "nat \<Rightarrow> nat \<Rightarrow> string" where
  "undo_summary successful_undos failed_undos =
     ''Undo completed: '' @ str_nat successful_undos @ '' restored, ''
       @ str_nat failed_undos @ '' failed''"

text \<open>
  \<open>undo_organization\<close> on what \<open>json.load\<close> returned for the log file: \<open>Inl\<close> for the
  exception of \<open>open\<close> or of the parser, else the list of entries.
\<close>

definition undo_organization ::
  "organizer \<Rightarrow> fs \<Rightarrow> error + operation list
     \<Rightarrow> (bool \<times> (string + outcome list \<times> string)) \<times> fs" where
  "undo_organization org fs loaded =
     (case loaded of
        Inl e \<Rightarrow> ((False, Inl (''Could not load undo log: '' @ str_error e)), fs)
      | Inr undo_operations \<Rightarrow>
          if undo_operations = [] then ((False, Inl ''Undo log is empty''), fs)
          else
            (case undo_loop (running org) (rev undo_operations) [] 0 0 fs of
               (results, successful_undos, failed_undos, fs') \<Rightarrow>
                 ((True, Inr (results, undo_summary successful_undos failed_undos)),
                  cleanup_empty_dirs org fs')))"

section \<open>The resolution, in the words of the specification\<close>

text \<open>
  The resolution as the specification words it: the sub-bucket is the first entry of the
  rule's table whose extensions hold the file's, else the first entry with no
  extensions, else none; the date segment is there only under the rule's date flag; the
  directory is root, category, sub-bucket, date segment, in that order.
\<close>

definition spec_sub_bucket :: "rule option \<Rightarrow> string \<Rightarrow> string option" where
  "spec_sub_bucket rule extension =
     (case rule of
        None \<Rightarrow> None
      | Some r \<Rightarrow>
          (case subfolders r of
             None \<Rightarrow> None
           | Some table \<Rightarrow>
               (case find (\<lambda>entry. extension \<in> set (snd entry)) table of
                  Some entry \<Rightarrow> Some (fst entry)
                | None \<Rightarrow>
                    (case find (\<lambda>entry. snd entry = []) table of
                       Some entry \<Rightarrow> Some (fst entry)
                     | None \<Rightarrow> None))))"

definition spec_date_segment :: "rule option \<Rightarrow> datetime \<Rightarrow> string option" where
  "spec_date_segment rule reference =
     (case rule of
        None \<Rightarrow> None
      | Some r \<Rightarrow>
          if subfolder_by_date r = Some True
          then Some (strftime reference (case date_format r of Some f \<Rightarrow> f | None \<Rightarrow> ''%Y/%m''))
          else None)"

definition spec_resolve :: "path \<Rightarrow> string \<Rightarrow> string option \<Rightarrow> string option \<Rightarrow> path" where
  "spec_resolve destination_root category sub_bucket date_segment =
     (let p = pjoin destination_root category;
          p = (case sub_bucket of None \<Rightarrow> p | Some s \<Rightarrow> pjoin p s);
          p = (case date_segment of None \<Rightarrow> p | Some s \<Rightarrow> pjoin p s)
      in p)"

section \<open>Predicates of the statements\<close>






fun sources_clear :: "operation list \<Rightarrow> bool" where
  "sources_clear [] = True"
| "sources_clear (op # later) =
     ((\<forall>op' \<in> set later.
          case (source op, destination op') of
            (Some f, Some q) \<Rightarrow> \<not> strict_prefix f q
          | _ \<Rightarrow> True)
      \<and> sources_clear later)"



section \<open>Example states\<close>

text \<open>
  An organizer as \<open>FileOrganizer()\<close> builds it (empty counters and log) with the given
  rules, settings and \<open>running\<close> flag, and the trees the closed examples run on.
\<close>

definition mk_org :: "rules \<Rightarrow> (string \<times> string) list \<Rightarrow> bool \<Rightarrow> organizer" where
  "mk_org rs cfg run =
     \<lparr>rules = rs, settings = cfg, moved = 0, errors = 0, undo_log = [], running = run\<rparr>"

definition date1 :: datetime where
  "date1 = \<lparr>year = 2023, month = 5, day = 10, hour = 9, minute = 30, second = 0\<rparr>"

definition example_tree :: fs where
  "example_tree =
     Dir [(''S'',
           Dir [(''a.jpg'', File 1 \<lparr>year = 2023, month = 5, day = 10, hour = 9, minute = 30, second = 0\<rparr>),
                (''b.pdf'', File 2 \<lparr>year = 2024, month = 1, day = 2, hour = 0, minute = 0, second = 0\<rparr>)])]"

definition collision_tree :: fs where
  "collision_tree =
     Dir [(''S'', Dir [(''photo.jpg'', File 1 date1)]),
          (''D'', Dir [(''Images'', Dir [(''2023'', Dir [(''05'', Dir [(''photo.jpg'', File 7 date1)])])])])]"

definition skip_org :: organizer where
  "skip_org = mk_org default_rules [(''handle_duplicates'', ''skip'')] True"

definition run_org :: organizer where
  "run_org = mk_org default_rules [] True"

definition rename_org :: organizer where
  "rename_org = mk_org default_rules [(''handle_duplicates'', ''rename'')] True"



definition two_photos :: fs where
  "two_photos =
     Dir [(''S'', Dir [(''a'', Dir [(''photo.jpg'', File 1 date1)]),
                       (''b'', Dir [(''photo.jpg'', File 2 date1)])])]"

definition taken_tree :: fs where
  "taken_tree =
     Dir [(''D'', Dir [(''photo.jpg'', File 1 date1), (''photo_1.jpg'', File 2 date1),
                       (''photo_3.jpg'', File 3 date1)])]"

definition litter_tree :: fs where
  "litter_tree =
     Dir [(''D'',
           Dir [(''Images'', Dir [(''2023'', Dir [(''05'', Dir [])])]),
                (''Documents'', Dir [(''PDFs'', Dir [(''b.pdf'', File 2 date1)]),
                                     (''Text Files'', Dir [])])]),
          (''S'', Dir [])]"


definition clash_tree :: fs where
  "clash_tree = Dir [(''S'', Dir [(''Images'', File 1 date1), (''x.jpg'', File 2 date1)])]"

text \<open>
  The log and the tree that the pass over \<open>two_photos\<close> leaves under the rename policy
  and under the overwrite policy, and those of the pass over \<open>clash_tree\<close> with the
  source folder as destination.
\<close>

definition move_op :: "path \<Rightarrow> path \<Rightarrow> operation" where
  "move_op src dst =
     \<lparr>timestamp = ''2023-05-10T09:30:00'', source = Some src, destination = Some dst,
      action = ''move''\<rparr>"

definition photo_dir :: path where
  "photo_dir = [''D'', ''Images'', ''2023'', ''05'']"

definition rename_pass_log :: "operation list" where
  "rename_pass_log =
     [move_op [''S'', ''a'', ''photo.jpg''] (photo_dir @ [''photo.jpg'']),
      move_op [''S'', ''b'', ''photo.jpg''] (photo_dir @ [''photo_1.jpg''])]"

definition rename_pass_tree :: fs where
  "rename_pass_tree =
     Dir [(''S'', Dir [(''a'', Dir []), (''b'', Dir [])]),
          (''D'', Dir [(''Images'', Dir [(''2023'', Dir [(''05'',
             Dir [(''photo.jpg'', File 1 date1), (''photo_1.jpg'', File 2 date1)])])])])]"



definition clash_pass_log :: "operation list" where
  "clash_pass_log =
     [move_op [''S'', ''Images''] [''S'', ''Other'', ''Images''],
      move_op [''S'', ''x.jpg''] [''S'', ''Images'', ''2023'', ''05'', ''x.jpg'']]"

definition clash_pass_tree :: fs where
  "clash_pass_tree =
     Dir [(''S'', Dir [(''Other'', Dir [(''Images'', File 1 date1)]),
                       (''Images'', Dir [(''2023'', Dir [(''05'', Dir [(''x.jpg'', File 2 date1)])])])])]"

section \<open>Classification is first-match on the lower-cased extension\<close>







section \<open>The destination directory\<close>

text \<open>
  The two loops of \<open>get_subfolder\<close> are \<open>find\<close> on the table, and joining the empty
  string leaves a path as it is.
\<close>

lemma first_containing_find:
  "first_containing table ext =
     (case find (\<lambda>entry. ext \<in> set (snd entry)) table of
        Some entry \<Rightarrow> Some (fst entry) | None \<Rightarrow> None)"
  by (induction table) auto

lemma first_catch_all_find:
  "first_catch_all table =
     (case find (\<lambda>entry. snd entry = []) table of Some entry \<Rightarrow> Some (fst entry) | None \<Rightarrow> None)"
  by (induction table) auto

lemma pjoin_empty: "pjoin p [] = p"
  by (simp add: pjoin_def startswith_def segments_def)

text \<open>
  Claim C3. The directory \<open>generate_destination_path\<close> returns is
  \<open>destination_base / category / sub-bucket / date segment\<close> in that order: the
  sub-bucket is present only when the category's rule has a \<open>subfolders\<close> table, and is
  its first entry listing the extension, else its first entry with an empty list; the
  date segment is present only when the rule sets \<open>subfolder_by_date\<close>, and is the
  file's timestamp under the rule's \<open>date_format\<close> (\<open>%Y/%m\<close> when the rule gives
  none). Under the default rules \<open>a.jpg\<close> of 2023-05-10 goes to \<open>D/Images/2023/05\<close> and
  \<open>b.pdf\<close> to \<open>D/Documents/PDFs\<close>.
\<close>

theorem generate_destination_path_resolve:
  "generate_destination_path now rs fs p D =
     spec_resolve D (get_file_category rs p)
       (spec_sub_bucket (map_of rs (get_file_category rs p)) (lower (suffix_of p)))
       (spec_date_segment (map_of rs (get_file_category rs p)) (get_file_date now fs p))
   \<and> generate_destination_path now default_rules example_tree [''S'', ''a.jpg''] [''D'']
       = [''D'', ''Images'', ''2023'', ''05'']
   \<and> generate_destination_path now default_rules example_tree [''S'', ''b.pdf''] [''D'']
       = [''D'', ''Documents'', ''PDFs'']"
proof -
  have general: "generate_destination_path now rs fs p D =
     spec_resolve D (get_file_category rs p)
       (spec_sub_bucket (map_of rs (get_file_category rs p)) (lower (suffix_of p)))
       (spec_date_segment (map_of rs (get_file_category rs p)) (get_file_date now fs p))"
    by (auto simp: generate_destination_path_def spec_resolve_def spec_sub_bucket_def
        spec_date_segment_def get_subfolder_def first_containing_find first_catch_all_find
        pjoin_empty Let_def split: option.splits)
  have jpg: "generate_destination_path now default_rules example_tree [''S'', ''a.jpg''] [''D'']
       = [''D'', ''Images'', ''2023'', ''05'']"
    by code_simp
  have pdf: "generate_destination_path now default_rules example_tree [''S'', ''b.pdf''] [''D'']
       = [''D'', ''Documents'', ''PDFs'']"
    by code_simp
  from general jpg pdf show ?thesis by (intro conjI)
qed

section \<open>Loading the rules\<close>






section \<open>The skip policy\<close>

text \<open>
  Claim C5. Under the \<open>skip\<close> policy, when the proposed destination of a regular file
  exists already, \<open>organize_file\<close> returns the outcome \<open>File skipped (duplicate)\<close> with
  the flag \<open>False\<close> and changes nothing: the file system (so the source file stays
  where it is), the undo log and both counters are those it was given.
\<close>

theorem skip_leaves_source:
  assumes "get_setting org ''handle_duplicates'' ''rename'' = ''skip''"
    and "exists fs source_path" and "\<not> is_dir fs source_path"
    and "exists fs (pchild (generate_destination_path now (rules org) fs source_path D)
                          (name source_path))"
  shows "organize_file now org fs source_path D dry_run =
           ((False, ''File skipped (duplicate): '' @ name source_path), org, fs)"
  using assms by (simp add: organize_file_def handle_duplicate_def Let_def)

lemma skip_example_facts:
  "get_setting skip_org ''handle_duplicates'' ''rename'' = ''skip''"
  "exists collision_tree [''S'', ''photo.jpg'']"
  "\<not> is_dir collision_tree [''S'', ''photo.jpg'']"
  "exists collision_tree
     (pchild (generate_destination_path now (rules skip_org) collision_tree [''S'', ''photo.jpg''] [''D''])
             (name [''S'', ''photo.jpg'']))"
  by code_simp+

theorem skip_leaves_source_witness:
  "get_setting skip_org ''handle_duplicates'' ''rename'' = ''skip''
   \<and> exists collision_tree [''S'', ''photo.jpg'']
   \<and> \<not> is_dir collision_tree [''S'', ''photo.jpg'']
   \<and> exists collision_tree [''D'', ''Images'', ''2023'', ''05'', ''photo.jpg'']
   \<and> organize_file date1 skip_org collision_tree [''S'', ''photo.jpg''] [''D''] False =
        ((False, ''File skipped (duplicate): photo.jpg''), skip_org, collision_tree)"
proof -
  have n: "name [''S'', ''photo.jpg''] = ''photo.jpg''" by (simp add: name_def)
  have e: "exists collision_tree [''D'', ''Images'', ''2023'', ''05'', ''photo.jpg'']" by code_simp
  from skip_leaves_source[OF skip_example_facts, of date1 False] skip_example_facts(1-3) e n
  show ?thesis by simp
qed

section \<open>Dry runs\<close>





section \<open>Failures during undo\<close>




section \<open>The flag undo returns\<close>



section \<open>The rename policy\<close>

lemma rename_loop_spec:
  "exists fs dest \<Longrightarrow>
     \<exists>k\<ge>c. rename_loop fs b e par dest c = pchild par (new_name b e k)
        \<and> \<not> exists fs (pchild par (new_name b e k))
        \<and> (\<forall>j. c \<le> j \<and> j < k \<longrightarrow> exists fs (pchild par (new_name b e j)))"
proof (induction fs b e par dest c rule: rename_loop.induct)
  case (1 fs b e par dest c)
  let ?next = "pchild par (new_name b e c)"
  have unfold: "rename_loop fs b e par dest c = rename_loop fs b e par ?next (c + 1)"
    using "1.prems" by (simp add: rename_loop.simps[of fs b e par dest c])
  show ?case
  proof (cases "exists fs ?next")
    case True
    from "1.IH"[OF "1.prems" True] obtain k where k: "c + 1 \<le> k"
      "rename_loop fs b e par ?next (c + 1) = pchild par (new_name b e k)"
      "\<not> exists fs (pchild par (new_name b e k))"
      "\<forall>j. c + 1 \<le> j \<and> j < k \<longrightarrow> exists fs (pchild par (new_name b e j))"
      by blast
    have "\<forall>j. c \<le> j \<and> j < k \<longrightarrow> exists fs (pchild par (new_name b e j))"
    proof (intro allI impI)
      fix j assume j: "c \<le> j \<and> j < k"
      show "exists fs (pchild par (new_name b e j))"
      proof (cases "j = c")
        case True
        with \<open>exists fs ?next\<close> show ?thesis by simp
      next
        case False
        with j k(4) show ?thesis by simp
      qed
    qed
    with k unfold show ?thesis by (intro exI[of _ k]) simp
  next
    case False
    then have "rename_loop fs b e par ?next (c + 1) = ?next"
      by (simp add: rename_loop.simps[of fs b e par ?next])
    with False unfold show ?thesis by (intro exI[of _ c]) auto
  qed
qed

lemma rename_pass:
  "organize_folder date1 rename_org two_photos [''S''] [''D''] False =
     ((True, Inr [(True, ''Moved photo.jpg -> /D/Images/2023/05/photo.jpg''),
                  (True, ''Moved photo.jpg -> /D/Images/2023/05/photo_1.jpg'')]),
      rename_org\<lparr>undo_log := rename_pass_log, moved := 2\<rparr>,
      rename_pass_tree)"
  by code_simp

text \<open>
  Claim C4. Under the rename policy (any setting other than \<open>skip\<close> and \<open>overwrite\<close>),
  for a proposed destination that exists, \<open>handle_duplicate\<close> returns
  \<open>parent / stem_k suffix\<close> for the least \<open>k \<ge> 1\<close> whose path does not exist: every
  candidate with a smaller counter exists and the returned one does not. Two files that
  both resolve to \<open>photo.jpg\<close> in one directory end as \<open>photo.jpg\<close> and \<open>photo_1.jpg\<close>,
  each with its own content.
\<close>

theorem rename_probes_first_free:
  "(get_setting org ''handle_duplicates'' ''rename'' \<notin> {''skip'', ''overwrite''}
      \<and> exists fs dest \<longrightarrow>
      (\<exists>k\<ge>1.
         handle_duplicate org fs src dest =
           Some (pchild (parent dest) (new_name (stem_of dest) (suffix_of dest) k))
         \<and> \<not> exists fs (pchild (parent dest) (new_name (stem_of dest) (suffix_of dest) k))
         \<and> (\<forall>j. 1 \<le> j \<and> j < k \<longrightarrow>
               exists fs (pchild (parent dest) (new_name (stem_of dest) (suffix_of dest) j)))))
   \<and> (case organize_folder date1 rename_org two_photos [''S''] [''D''] False of
        (result, org', fs') \<Rightarrow>
          result = (True, Inr [(True, ''Moved photo.jpg -> /D/Images/2023/05/photo.jpg''),
                               (True, ''Moved photo.jpg -> /D/Images/2023/05/photo_1.jpg'')])
          \<and> lookup fs' [''D'', ''Images'', ''2023'', ''05'', ''photo.jpg''] = Some (File 1 date1)
          \<and> lookup fs' [''D'', ''Images'', ''2023'', ''05'', ''photo_1.jpg''] = Some (File 2 date1))"
proof (intro conjI impI)
  assume a: "get_setting org ''handle_duplicates'' ''rename'' \<notin> {''skip'', ''overwrite''}
      \<and> exists fs dest"
  from rename_loop_spec[of fs dest 1 "stem_of dest" "suffix_of dest" "parent dest"] a
  show "\<exists>k\<ge>1.
         handle_duplicate org fs src dest =
           Some (pchild (parent dest) (new_name (stem_of dest) (suffix_of dest) k))
         \<and> \<not> exists fs (pchild (parent dest) (new_name (stem_of dest) (suffix_of dest) k))
         \<and> (\<forall>j. 1 \<le> j \<and> j < k \<longrightarrow>
               exists fs (pchild (parent dest) (new_name (stem_of dest) (suffix_of dest) j)))"
    by (simp add: handle_duplicate_def Let_def)
next
  show "case organize_folder date1 rename_org two_photos [''S''] [''D''] False of
        (result, org', fs') \<Rightarrow>
          result = (True, Inr [(True, ''Moved photo.jpg -> /D/Images/2023/05/photo.jpg''),
                               (True, ''Moved photo.jpg -> /D/Images/2023/05/photo_1.jpg'')])
          \<and> lookup fs' [''D'', ''Images'', ''2023'', ''05'', ''photo.jpg''] = Some (File 1 date1)
          \<and> lookup fs' [''D'', ''Images'', ''2023'', ''05'', ''photo_1.jpg''] = Some (File 2 date1)"
    by (simp add: rename_pass rename_pass_tree_def)
qed

theorem rename_probes_first_free_witness:
  "get_setting rename_org ''handle_duplicates'' ''rename'' \<notin> {''skip'', ''overwrite''}
   \<and> exists taken_tree [''D'', ''photo.jpg'']
   \<and> exists taken_tree [''D'', ''photo_1.jpg'']
   \<and> \<not> exists taken_tree [''D'', ''photo_2.jpg'']
   \<and> handle_duplicate rename_org taken_tree [''S'', ''photo.jpg''] [''D'', ''photo.jpg'']
       = Some [''D'', ''photo_2.jpg'']"
proof -
  have 1: "get_setting rename_org ''handle_duplicates'' ''rename'' \<notin> {''skip'', ''overwrite''}"
    by code_simp
  have 2: "exists taken_tree [''D'', ''photo.jpg'']" by code_simp
  have 3: "exists taken_tree [''D'', ''photo_1.jpg'']" by code_simp
  have 4: "\<not> exists taken_tree [''D'', ''photo_2.jpg'']" by code_simp
  have 5: "handle_duplicate rename_org taken_tree [''S'', ''photo.jpg''] [''D'', ''photo.jpg'']
       = Some [''D'', ''photo_2.jpg'']" by code_simp
  from rename_probes_first_free[of rename_org taken_tree "[''D'', ''photo.jpg'']" "[''S'', ''photo.jpg'']"]
    1 2 3 4 5
  show ?thesis by simp
qed

section \<open>Cleaning up empty directories\<close>

lemma cleanup_node_idem: "cleanup_node (cleanup_node n) = cleanup_node n"
proof (induction n)
  case (File c d)
  show ?case by simp
next
  case (Dir es)
  let ?g = "\<lambda>e. (fst e, cleanup_node (snd e))"
  let ?P = "\<lambda>e. snd e \<noteq> Dir []"
  have g: "?g (?g e) = ?g e" if "e \<in> set es" for e
    using Dir.IH[of e "snd e"] that by (cases e) auto
  have "map ?g (filter ?P (map ?g es)) = filter ?P (map ?g es)"
    using g by (induction es) auto
  then show ?case by simp
qed

lemma map_at_idem:
  "(\<And>n. g (g n) = g n) \<Longrightarrow> map_at p g (map_at p g t) = map_at p g t"
proof (induction p arbitrary: t)
  case Nil
  then show ?case by simp
next
  case (Cons x p)
  show ?case
  proof (cases t)
    case (File c d)
    then show ?thesis by simp
  next
    case (Dir es)
    then show ?thesis using Cons by (simp add: comp_def if_distrib cong: if_cong)
  qed
qed

lemma map_of_entries_map:
  "map_of (map (\<lambda>e. if fst e = x then (fst e, F (snd e)) else e) es) y =
     (if y = x then map_option F (map_of es y) else map_of es y)"
  by (induction es) auto

lemma lookup_map_at_below:
  "lookup (map_at b g fs) (b @ r) =
     (case lookup fs b of None \<Rightarrow> None | Some n \<Rightarrow> lookup (g n) r)"
proof (induction b arbitrary: fs)
  case Nil
  show ?case by simp
next
  case (Cons x b)
  show ?case
  proof (cases fs)
    case (File c d)
    then show ?thesis by simp
  next
    case (Dir es)
    then show ?thesis
      by (cases "map_of es x") (simp_all add: map_of_entries_map Cons.IH)
  qed
qed

lemma map_of_filter_map:
  "map_of es x = Some n \<Longrightarrow> P (x, f n) \<Longrightarrow>
     map_of (filter P (map (\<lambda>e. (fst e, f (snd e))) es)) x = Some (f n)"
  by (induction es) (auto split: if_splits)

lemma lookup_empty_dir_file: "lookup (Dir []) q \<noteq> Some (File c d)"
  by (cases q) auto

lemma cleanup_node_keeps_files:
  "lookup n q = Some (File c d) \<Longrightarrow> lookup (cleanup_node n) q = Some (File c d)"
proof (induction n arbitrary: q)
  case (File c' d')
  then show ?case by (cases q) auto
next
  case (Dir es)
  show ?case
  proof (cases q)
    case Nil
    with Dir.prems show ?thesis by simp
  next
    case (Cons x q')
    with Dir.prems obtain n' where n': "map_of es x = Some n'" "lookup n' q' = Some (File c d)"
      by (auto split: option.splits)
    from n'(1) have mem: "(x, n') \<in> set es" by (rule map_of_SomeD)
    have IH: "lookup (cleanup_node n') q' = Some (File c d)"
      using Dir.IH[of "(x, n')" n' q'] mem n'(2) by simp
    then have "cleanup_node n' \<noteq> Dir []" using lookup_empty_dir_file[of q' c d] by auto
    with n'(1) have "map_of (filter (\<lambda>e. snd e \<noteq> Dir [])
                      (map (\<lambda>e. (fst e, cleanup_node (snd e))) es)) x = Some (cleanup_node n')"
      by (intro map_of_filter_map) simp_all
    with IH Cons show ?thesis by simp
  qed
qed

lemma map_at_keeps_files:
  assumes g: "\<And>n q. lookup n q = Some (File c d) \<Longrightarrow> lookup (g n) q = Some (File c d)"
  shows "lookup fs p = Some (File c d) \<Longrightarrow> lookup (map_at b g fs) p = Some (File c d)"
proof (induction b arbitrary: fs p)
  case Nil
  then show ?case using g by simp
next
  case (Cons x b)
  show ?case
  proof (cases fs)
    case (File c' d')
    with Cons.prems show ?thesis by simp
  next
    case (Dir es)
    show ?thesis
    proof (cases p)
      case Nil
      with Cons.prems Dir show ?thesis by simp
    next
      case (Cons y p')
      with Cons.prems Dir obtain n' where n': "map_of es y = Some n'" "lookup n' p' = Some (File c d)"
        by (auto split: option.splits)
      show ?thesis
        using n' Cons.IH[of n' p'] Dir Cons by (auto simp: map_of_entries_map)
    qed
  qed
qed

lemma lookup_prefix_exists: "lookup fs (p @ q) = Some n \<Longrightarrow> lookup fs p \<noteq> None"
proof (induction p arbitrary: fs)
  case Nil
  show ?case by simp
next
  case (Cons x p)
  then show ?case by (cases fs) (auto split: option.splits)
qed

lemma cleanup_dir_tree_keeps_files:
  "lookup fs p = Some (File c d) \<Longrightarrow> lookup (cleanup_dir_tree fs b) p = Some (File c d)"
  unfolding cleanup_dir_tree_def
  by (rule map_at_keeps_files) (rule cleanup_node_keeps_files)

lemma exists_cleanup_base: "exists fs b \<Longrightarrow> exists (cleanup_dir_tree fs b) b"
  using lookup_map_at_below[of b cleanup_node fs "[]"]
  by (auto simp: exists_def cleanup_dir_tree_def split: option.splits)


text \<open>
  Claim C9. The cleanup pass is idempotent: a second run on the tree the first run left
  returns that tree, for \<open>cleanup_dir_tree\<close> on any base and for \<open>_cleanup_empty_dirs\<close>.
  The pass is a total function, so no run raises. It removes no regular file, and a
  directory with a file anywhere below it stays: what it removes was empty when it was
  removed.
\<close>

theorem cleanup_idempotent:
  "cleanup_dir_tree (cleanup_dir_tree fs b) b = cleanup_dir_tree fs b
   \<and> cleanup_empty_dirs org (cleanup_empty_dirs org fs) = cleanup_empty_dirs org fs
   \<and> (lookup fs p = Some (File c d) \<longrightarrow> lookup (cleanup_dir_tree fs b) p = Some (File c d))
   \<and> (lookup fs (p @ q) = Some (File c d) \<longrightarrow> exists (cleanup_dir_tree fs b) p)"
proof (intro conjI impI)
  show idem: "cleanup_dir_tree (cleanup_dir_tree fs b) b = cleanup_dir_tree fs b" for fs b
    unfolding cleanup_dir_tree_def by (rule map_at_idem) (rule cleanup_node_idem)
  show "cleanup_empty_dirs org (cleanup_empty_dirs org fs) = cleanup_empty_dirs org fs"
    by (auto simp: cleanup_empty_dirs_def Let_def idem exists_cleanup_base split: option.splits)
next
  assume "lookup fs p = Some (File c d)"
  then show "lookup (cleanup_dir_tree fs b) p = Some (File c d)"
    by (rule cleanup_dir_tree_keeps_files)
next
  assume "lookup fs (p @ q) = Some (File c d)"
  then have "lookup (cleanup_dir_tree fs b) (p @ q) = Some (File c d)"
    by (rule cleanup_dir_tree_keeps_files)
  then show "exists (cleanup_dir_tree fs b) p"
    unfolding exists_def by (rule lookup_prefix_exists)
qed

theorem cleanup_idempotent_witness:
  "lookup litter_tree ([''D'', ''Documents''] @ [''PDFs'', ''b.pdf'']) = Some (File 2 date1)
   \<and> cleanup_dir_tree litter_tree [''D''] =
       Dir [(''D'', Dir [(''Documents'', Dir [(''PDFs'', Dir [(''b.pdf'', File 2 date1)])])]),
            (''S'', Dir [])]
   \<and> cleanup_dir_tree (cleanup_dir_tree litter_tree [''D'']) [''D'']
       = cleanup_dir_tree litter_tree [''D'']
   \<and> exists (cleanup_dir_tree litter_tree [''D'']) [''D'', ''Documents'']
   \<and> lookup (cleanup_dir_tree litter_tree [''D'']) [''D'', ''Documents'', ''PDFs'', ''b.pdf'']
       = Some (File 2 date1)"
proof -
  have 1: "lookup litter_tree ([''D'', ''Documents''] @ [''PDFs'', ''b.pdf'']) = Some (File 2 date1)"
    by code_simp
  have 2: "cleanup_dir_tree litter_tree [''D''] =
       Dir [(''D'', Dir [(''Documents'', Dir [(''PDFs'', Dir [(''b.pdf'', File 2 date1)])])]),
            (''S'', Dir [])]" by code_simp
  from cleanup_idempotent[of litter_tree "[''D'']" run_org "[''D'', ''Documents'', ''PDFs'', ''b.pdf'']" 2 date1 "[]"]
    cleanup_idempotent[of litter_tree "[''D'']" run_org "[''D'', ''Documents'']" 2 date1 "[''PDFs'', ''b.pdf'']"]
    1 2
  show ?thesis by simp
qed

section \<open>What is at each path\<close>











section \<open>mkdir and move on the view\<close>








section \<open>One move and its undo\<close>
















lemma rename_undo:
  "undo_organization (rename_org\<lparr>undo_log := rename_pass_log, moved := 2\<rparr>) rename_pass_tree
     (Inr rename_pass_log) =
     ((True, Inr ([(True, ''Restored photo_1.jpg -> /S/b/photo.jpg''),
                   (True, ''Restored photo.jpg -> /S/a/photo.jpg'')],
                  ''Undo completed: 2 restored, 0 failed'')),
      Dir [(''S'', Dir [(''a'', Dir [(''photo.jpg'', File 1 date1)]),
                        (''b'', Dir [(''photo.jpg'', File 2 date1)])]),
           (''D'', Dir [(''Images'', Dir [(''2023'', Dir [(''05'', Dir [])])])])])"
  by code_simp



text \<open>
  Why the log must be \<open>sources_clear\<close>: with the source folder as destination, the
  file \<open>S/Images\<close> is moved to \<open>S/Other/Images\<close> and the next move makes the
  directory \<open>S/Images\<close>; the undo then moves the file into that directory, to
  \<open>S/Images/Images\<close>, and reports it restored.
\<close>

lemma round_trip_directory_clash:
  "organize_folder date1 rename_org clash_tree [''S''] [''S''] False =
     ((True, Inr [(True, ''Moved Images -> /S/Other/Images''),
                  (True, ''Moved x.jpg -> /S/Images/2023/05/x.jpg'')]),
      rename_org\<lparr>undo_log := clash_pass_log, moved := 2\<rparr>,
      clash_pass_tree)
   \<and> \<not> sources_clear clash_pass_log
   \<and> undo_organization (rename_org\<lparr>undo_log := clash_pass_log, moved := 2\<rparr>)
        clash_pass_tree (Inr clash_pass_log) =
     ((True, Inr ([(True, ''Restored x.jpg -> /S/x.jpg''),
                   (True, ''Restored Images -> /S/Images'')],
                  ''Undo completed: 2 restored, 0 failed'')),
      Dir [(''S'', Dir [(''Other'', Dir []),
                        (''Images'', Dir [(''2023'', Dir [(''05'', Dir [])]),
                                          (''Images'', File 1 date1)]),
                        (''x.jpg'', File 2 date1)])])"
proof (intro conjI)
  show "organize_folder date1 rename_org clash_tree [''S''] [''S''] False =
     ((True, Inr [(True, ''Moved Images -> /S/Other/Images''),
                  (True, ''Moved x.jpg -> /S/Images/2023/05/x.jpg'')]),
      rename_org\<lparr>undo_log := clash_pass_log, moved := 2\<rparr>,
      clash_pass_tree)"
    by code_simp
  show "\<not> sources_clear clash_pass_log" by code_simp
  show "undo_organization (rename_org\<lparr>undo_log := clash_pass_log, moved := 2\<rparr>)
        clash_pass_tree (Inr clash_pass_log) =
     ((True, Inr ([(True, ''Restored x.jpg -> /S/x.jpg''),
                   (True, ''Restored Images -> /S/Images'')],
                  ''Undo completed: 2 restored, 0 failed'')),
      Dir [(''S'', Dir [(''Other'', Dir []),
                        (''Images'', Dir [(''2023'', Dir [(''05'', Dir [])]),
                                          (''Images'', File 1 date1)]),
                        (''x.jpg'', File 2 date1)])])"
    by code_simp
qed

end
